theory Spec2Isabelle
  imports Main "HOL-Library.AList" "HOL-Library.Multiset"
begin

section \<open>Document-to-Markdown conversion (file\_to\_md.py, main.py)\<close>

text \<open>
  A shallow embedding of \<^verbatim>\<open>convert_to_markdown\<close>, its two PDF helpers and the
  cheatsheet loader of \<^verbatim>\<open>main.py\<close>. Python's leading underscores are dropped from the
  names (\<^verbatim>\<open>_convert_pdf_to_markdown_text\<close> is \<open>convert_pdf_to_markdown_text\<close>).

  Conventions of the model:
  \<^item> a Python \<^verbatim>\<open>str\<close> is a \<open>string\<close> whose characters are the code points below 256;
  \<^item> a \<^verbatim>\<open>Path\<close> is its normalised POSIX string form (what \<^verbatim>\<open>str(path)\<close> prints), with
    \<^verbatim>\<open>name\<close>, \<^verbatim>\<open>suffix\<close>, \<^verbatim>\<open>stem\<close> and \<^verbatim>\<open>with_suffix\<close> as pathlib computes them up
    to Python 3.13;
  \<^item> the file system is a map from paths to the contents of regular files, passed in
    and returned; directories are not modelled;
  \<^item> an exception is a value \<open>Inl e\<close> of the result;
  \<^item> the third-party PDF libraries and the scheduling of the thread pool are
    parameters, collected in the record \<open>env\<close>.
\<close>

subsection \<open>Python strings\<close>

definition isspace :: "char \<Rightarrow> bool" where
  \<comment> \<open>\<^verbatim>\<open>str.isspace\<close> on the code points below 256.\<close>
  "isspace c =
     (let n = (of_char c :: nat)
      in (9 \<le> n \<and> n \<le> 13) \<or> (28 \<le> n \<and> n \<le> 32) \<or> n = 133 \<or> n = 160)"

definition strip :: "string \<Rightarrow> string" where
  \<comment> \<open>\<^verbatim>\<open>s.strip()\<close>: leading whitespace removed, then trailing whitespace.\<close>
  "strip s = rev (dropWhile isspace (rev (dropWhile isspace s)))"

definition lower_char :: "char \<Rightarrow> char" where
  "lower_char c =
     (let n = (of_char c :: nat)
      in if (65 \<le> n \<and> n \<le> 90) \<or> (192 \<le> n \<and> n \<le> 214) \<or> (216 \<le> n \<and> n \<le> 222)
         then char_of (n + 32) else c)"

definition lower :: "string \<Rightarrow> string" where
  "lower s = map lower_char s"

fun py_join :: "string \<Rightarrow> string list \<Rightarrow> string" where
  \<comment> \<open>\<^verbatim>\<open>sep.join(lines)\<close>\<close>
  "py_join sep [] = []"
| "py_join sep [x] = x"
| "py_join sep (x # y # ys) = x @ sep @ py_join sep (y # ys)"

fun str_of_nat :: "nat \<Rightarrow> string" where
  \<comment> \<open>the decimal digits an f-string prints for a non-negative \<^verbatim>\<open>int\<close>\<close>
  "str_of_nat n =
     (if n < 10 then [char_of (48 + n)]
      else str_of_nat (n div 10) @ [char_of (48 + n mod 10)])"

definition or_empty :: "string option \<Rightarrow> string" where
  \<comment> \<open>\<^verbatim>\<open>text or ""\<close>: \<^verbatim>\<open>None\<close> and the empty string both give the empty string.\<close>
  "or_empty t = (case t of None \<Rightarrow> [] | Some s \<Rightarrow> s)"

subsection \<open>Paths (pathlib, POSIX flavour)\<close>

type_synonym path = string

definition py_name :: "path \<Rightarrow> string" where
  \<comment> \<open>\<^verbatim>\<open>path.name\<close>: the final component; empty for the root and for \<^verbatim>\<open>Path(".")\<close>.\<close>
  "py_name p =
     (if p = ''.'' then [] else rev (takeWhile (\<lambda>c. c \<noteq> CHR ''/'') (rev p)))"

definition py_suffix :: "path \<Rightarrow> string" where
  \<comment> \<open>\<^verbatim>\<open>path.suffix\<close>: with \<open>i\<close> the index of the last dot of the name, the name from
      \<open>i\<close> on if \<open>0 < i < len(name) - 1\<close>, else the empty string.\<close>
  "py_suffix p =
     (let name = py_name p;
          ext = rev (takeWhile (\<lambda>c. c \<noteq> CHR ''.'') (rev name))
      in if CHR ''.'' \<in> set name \<and> ext \<noteq> [] \<and> length ext + 1 < length name
         then CHR ''.'' # ext else [])"

definition py_stem :: "path \<Rightarrow> string" where
  \<comment> \<open>\<^verbatim>\<open>path.stem\<close>: the name without its suffix.\<close>
  "py_stem p = (let name = py_name p in take (length name - length (py_suffix p)) name)"

datatype py_exn =
    FileNotFoundError string
  | ConversionError string
  | SystemExit string
  | ValueError
  | KeyError
  | OtherError string

text \<open>
  \<open>ConversionError\<close> is the module's own exception class, with its message.
  \<open>ValueError\<close> is what pathlib raises, \<open>KeyError\<close> what a dict lookup raises, and
  \<open>OtherError\<close> stands for any exception of another class raised by the PDF libraries
  or by the injected OCR function.
\<close>

definition with_suffix :: "path \<Rightarrow> string \<Rightarrow> py_exn + path" where
  \<comment> \<open>\<^verbatim>\<open>path.with_suffix(suffix)\<close> for a valid suffix: an empty name raises
      \<^verbatim>\<open>ValueError\<close>; otherwise the old suffix, if any, is replaced.\<close>
  "with_suffix p suffix =
     (if py_name p = [] then Inl ValueError
      else Inr (take (length p - length (py_suffix p)) p @ suffix))"

definition joinpath :: "path \<Rightarrow> string \<Rightarrow> path" where
  \<comment> \<open>\<^verbatim>\<open>directory / name\<close> for a relative one-component \<open>name\<close>.\<close>
  "joinpath d n =
     (if d = ''.'' then n
      else if d \<noteq> [] \<and> last d = CHR ''/'' then d @ n
      else d @ ''/'' @ n)"

subsection \<open>File system and injected functions\<close>

type_synonym filesystem = "path \<rightharpoonup> string"

type_synonym quality_checker = "string \<Rightarrow> bool"

type_synonym png = string

type_synonym ocr_func = "png \<Rightarrow> py_exn + string option"

record env =
  pypdf :: "(string \<Rightarrow> py_exn + string option list) option"
  fitz :: "(string \<Rightarrow> py_exn + (py_exn + png) list) option"
  as_completed :: "nat \<Rightarrow> nat list"

text \<open>
  \<^item> \<open>pypdf env\<close> is \<open>None\<close> when the import of pypdf fails; otherwise it maps the bytes
    of a file to what \<^verbatim>\<open>PdfReader\<close> and \<^verbatim>\<open>page.extract_text()\<close> give: an exception, or
    the extracted value of every page in order.
  \<^item> \<open>fitz env\<close> is \<open>None\<close> when the import of PyMuPDF fails; otherwise it maps the bytes
    of a file to what \<^verbatim>\<open>fitz.open\<close> gives: an exception, or the document, one entry per
    page holding what rendering that page to PNG gives (an exception or the image).
  \<^item> \<open>as_completed env n\<close> is the order in which the \<open>n\<close> submitted page tasks complete.
\<close>

definition read_text :: "filesystem \<Rightarrow> path \<Rightarrow> py_exn + string" where
  "read_text fs p =
     (case fs p of
        None \<Rightarrow> Inl (FileNotFoundError (''[Errno 2] No such file or directory: '' @ p))
      | Some text \<Rightarrow> Inr text)"

definition gate_rejects :: "quality_checker option \<Rightarrow> string \<Rightarrow> bool" where
  \<comment> \<open>\<^verbatim>\<open>quality_checker is not None and not quality_checker(markdown)\<close>\<close>
  "gate_rejects quality_checker markdown =
     (case quality_checker of None \<Rightarrow> False | Some qc \<Rightarrow> \<not> qc markdown)"

subsection \<open>Text-layer extraction\<close>

definition page_header :: "nat \<Rightarrow> string" where
  "page_header n = ''Page '' @ str_of_nat n"

fun text_lines :: "nat \<Rightarrow> string list \<Rightarrow> string list \<Rightarrow> string list" where
  \<comment> \<open>the loop \<^verbatim>\<open>for idx, text in enumerate(page_texts, start=1)\<close>, with \<open>idx\<close> the
      current index and \<open>lines\<close> the list built so far\<close>
  "text_lines idx [] lines = lines"
| "text_lines idx (text # page_texts) lines =
     (let clean = strip text
      in if clean = [] then text_lines (idx + 1) page_texts lines
         else text_lines (idx + 1) page_texts (lines @ [page_header idx, [], clean, []]))"

definition convert_pdf_to_markdown_text :: "env \<Rightarrow> string \<Rightarrow> path \<Rightarrow> py_exn + string" where
  "convert_pdf_to_markdown_text e content pdf_path =
     (case pypdf e of
        None \<Rightarrow>
          Inl (ConversionError ''pypdf is required for PDF conversion but is not installed'')
      | Some reader \<Rightarrow>
          (case reader content of
             Inl exc \<Rightarrow> Inl exc
           | Inr pages \<Rightarrow>
               (let page_texts = map or_empty pages;
                    lines = text_lines 1 page_texts []
                in if lines = []
                   then Inl (ConversionError (''No usable text extracted from PDF: '' @ pdf_path))
                   else Inr (py_join ''\<newline>'' lines))))"

subsection \<open>OCR extraction\<close>

definition load_page :: "(py_exn + png) list \<Rightarrow> nat \<Rightarrow> py_exn + png" where
  \<comment> \<open>\<^verbatim>\<open>doc.load_page(i)\<close> and the rendering of the page to PNG bytes\<close>
  "load_page doc page_index =
     (if page_index < length doc then doc ! page_index else Inl ValueError)"

definition render_and_ocr ::
  "(py_exn + png) list \<Rightarrow> ocr_func \<Rightarrow> nat \<Rightarrow> py_exn + nat \<times> string" where
  "render_and_ocr doc ocr page_index =
     (case load_page doc page_index of
        Inl exc \<Rightarrow> Inl exc
      | Inr image_bytes \<Rightarrow>
          (case ocr image_bytes of
             Inl exc \<Rightarrow> Inl exc
           | Inr text \<Rightarrow> Inr (page_index, strip (or_empty text))))"

fun collect_completed ::
  "(py_exn + nat \<times> string) list \<Rightarrow> (nat \<times> string) list \<Rightarrow> py_exn + (nat \<times> string) list" where
  \<comment> \<open>the loop over \<^verbatim>\<open>as_completed(futures)\<close>: \<^verbatim>\<open>future.result()\<close> re-raises the
      exception of a failed task; \<open>results\<close> is the dict, in insertion order\<close>
  "collect_completed [] results = Inr results"
| "collect_completed (Inl exc # futures) results = Inl exc"
| "collect_completed (Inr (page_index, clean) # futures) results =
     collect_completed futures
       (if clean \<noteq> [] then AList.update page_index clean results else results)"

fun ocr_lines ::
  "(nat \<times> string) list \<Rightarrow> nat list \<Rightarrow> string list \<Rightarrow> py_exn + string list" where
  \<comment> \<open>the loop \<^verbatim>\<open>for idx in sorted(results)\<close>, with \<open>lines\<close> the list built so far\<close>
  "ocr_lines results [] lines = Inr lines"
| "ocr_lines results (idx # rest) lines =
     (case map_of results idx of
        None \<Rightarrow> Inl KeyError
      | Some text \<Rightarrow> ocr_lines results rest (lines @ [page_header (idx + 1), [], text, []]))"

definition convert_pdf_to_markdown_ocr ::
  "env \<Rightarrow> string \<Rightarrow> path \<Rightarrow> ocr_func option \<Rightarrow> py_exn + string" where
  "convert_pdf_to_markdown_ocr e content pdf_path ocr_func =
     (case ocr_func of
        None \<Rightarrow>
          Inl (ConversionError ''OCR conversion requested but no OCR function was provided'')
      | Some ocr \<Rightarrow>
          (case fitz e of
             None \<Rightarrow>
               Inl (ConversionError
                 ''PyMuPDF (fitz) is required for OCR-based PDF conversion but is not installed'')
           | Some fitz_open \<Rightarrow>
               (case fitz_open content of
                  Inl exc \<Rightarrow> Inl exc
                | Inr doc \<Rightarrow>
                    if length doc = 0
                    then Inl (ConversionError (''No pages in PDF for OCR: '' @ pdf_path))
                    else
                      (case collect_completed
                              (map (render_and_ocr doc ocr) (as_completed e (length doc))) [] of
                         Inl exc \<Rightarrow> Inl exc
                       | Inr results \<Rightarrow>
                           if results = []
                           then Inl (ConversionError
                                  (''OCR produced no content for PDF: '' @ pdf_path))
                           else
                             (case ocr_lines results (sort (map fst results)) [] of
                                Inl exc \<Rightarrow> Inl exc
                              | Inr lines \<Rightarrow> Inr (py_join ''\<newline>'' lines))))))"

subsection \<open>The converter\<close>

definition convert_to_markdown ::
  "env \<Rightarrow> filesystem \<Rightarrow> path \<Rightarrow> quality_checker option \<Rightarrow> ocr_func option \<Rightarrow> bool
     \<Rightarrow> (py_exn + path) \<times> filesystem" where
  "convert_to_markdown e fs src_path quality_checker ocr_func use_ocr =
     (case fs src_path of
        None \<Rightarrow> (Inl (FileNotFoundError (''Source file not found: '' @ src_path)), fs)
      | Some content \<Rightarrow>
          (let suffix = lower (py_suffix src_path)
           in if suffix = ''.md'' then (Inr src_path, fs)
              else if suffix = ''.txt'' then
                (case with_suffix src_path ''.md'' of
                   Inl exc \<Rightarrow> (Inl exc, fs)
                 | Inr md_path \<Rightarrow>
                     if fs md_path \<noteq> None then (Inr md_path, fs)
                     else
                       (let markdown = strip content @ ''\<newline>''
                        in if gate_rejects quality_checker markdown
                           then (Inl (ConversionError
                                   (''Text from '' @ src_path @ '' failed quality check'')), fs)
                           else (Inr md_path, fs(md_path \<mapsto> markdown))))
              else
                (case with_suffix src_path ''.md'' of
                   Inl exc \<Rightarrow> (Inl exc, fs)
                 | Inr md_path \<Rightarrow>
                     if fs md_path \<noteq> None then (Inr md_path, fs)
                     else if suffix = ''.pdf'' then
                       (case (if use_ocr
                              then convert_pdf_to_markdown_ocr e content src_path ocr_func
                              else convert_pdf_to_markdown_text e content src_path) of
                          Inl exc \<Rightarrow> (Inl exc, fs)
                        | Inr markdown_text \<Rightarrow>
                            if gate_rejects quality_checker markdown_text
                            then (Inl (ConversionError
                                    (''Extracted text for '' @ src_path
                                       @ '' failed quality check'')), fs)
                            else (Inr md_path, fs(md_path \<mapsto> markdown_text)))
                     else (Inl (ConversionError
                                 (''Unsupported file type for conversion: '' @ suffix)), fs))))"

subsection \<open>The cheatsheet loader (main.py)\<close>

definition load_cheatsheet ::
  "env \<Rightarrow> ocr_func \<Rightarrow> filesystem \<Rightarrow> path \<Rightarrow> bool \<Rightarrow> (py_exn + string) \<times> filesystem" where
  \<comment> \<open>\<open>llm_ocr\<close> is the OCR function of \<^verbatim>\<open>openai_client\<close>, a parameter here.\<close>
  "load_cheatsheet e llm_ocr fs course_dir use_ocr =
     (let md_path = joinpath course_dir ''cheatsheet.md'';
          pdf_path = joinpath course_dir ''cheatsheet.pdf''
      in case fs md_path of
           Some text \<Rightarrow> (Inr text, fs)
         | None \<Rightarrow>
             if fs pdf_path \<noteq> None then
               (case convert_to_markdown e fs pdf_path None
                       (if use_ocr then Some llm_ocr else None) use_ocr of
                  (Inl (ConversionError msg), fs') \<Rightarrow>
                    (Inl (SystemExit (''Failed to convert cheatsheet PDF: '' @ msg)), fs')
                | (Inl exc, fs') \<Rightarrow> (Inl exc, fs')
                | (Inr md_converted, fs') \<Rightarrow> (read_text fs' md_converted, fs'))
             else (Inl (SystemExit
                         (''No cheatsheet.md or cheatsheet.pdf found in '' @ course_dir)), fs))"

subsection \<open>The per-file loop of the batch collaborator (main.py)\<close>

fun gather_markdown_files ::
  "env \<Rightarrow> ocr_func \<Rightarrow> filesystem \<Rightarrow> path list \<Rightarrow> bool \<Rightarrow> string list
     \<Rightarrow> (py_exn + string list) \<times> filesystem" where
  \<comment> \<open>the loop of \<^verbatim>\<open>_gather_markdown_files\<close> over \<open>paths\<close>, the files that
      \<^verbatim>\<open>sorted(base_dir.rglob("*"))\<close> lists (empty when the directory is absent);
      only \<^verbatim>\<open>ConversionError\<close> is caught, with a warning printed\<close>
  "gather_markdown_files e llm_ocr fs [] use_ocr markdown_texts = (Inr markdown_texts, fs)"
| "gather_markdown_files e llm_ocr fs (path # paths) use_ocr markdown_texts =
     (let suffix = lower (py_suffix path)
      in if suffix \<noteq> ''.md'' \<and> suffix \<noteq> ''.txt'' \<and> suffix \<noteq> ''.pdf''
         then gather_markdown_files e llm_ocr fs paths use_ocr markdown_texts
         else
           (case convert_to_markdown e fs path None
                   (if use_ocr then Some llm_ocr else None)
                   (if suffix = ''.pdf'' then use_ocr else False) of
              (Inl (ConversionError msg), fs') \<Rightarrow>
                gather_markdown_files e llm_ocr fs' paths use_ocr markdown_texts
            | (Inl exc, fs') \<Rightarrow> (Inl exc, fs')
            | (Inr md_path, fs') \<Rightarrow>
                (case read_text fs' md_path of
                   Inl exc \<Rightarrow> (Inl exc, fs')
                 | Inr text \<Rightarrow>
                     gather_markdown_files e llm_ocr fs' paths use_ocr
                       (markdown_texts @ [text]))))"

subsection \<open>The merge format, as the specification words it\<close>

text \<open>
  The specification describes the merged Markdown by its sections: one per page whose
  trimmed text is non-empty, in page order, each a \<open>Page N\<close> header, an empty line, the
  trimmed text and an empty line, the lines joined by newlines. \<open>cleans\<close> lists the
  trimmed text of every page, page 1 first.
\<close>

definition page_section :: "nat \<times> string \<Rightarrow> string list" where
  "page_section = (\<lambda>(n, text). [page_header n, [], text, []])"

definition nonblank_pages :: "string list \<Rightarrow> (nat \<times> string) list" where
  "nonblank_pages cleans =
     filter (\<lambda>(n, text). text \<noteq> []) (enumerate 1 cleans)"

definition merge_pages :: "string list \<Rightarrow> string" where
  "merge_pages cleans = py_join ''\<newline>'' (concat (map page_section (nonblank_pages cleans)))"

definition all_blank :: "string list \<Rightarrow> bool" where
  "all_blank cleans = list_all (\<lambda>text. text = []) cleans"

subsection \<open>The failures of the converter, classified\<close>




subsection \<open>Example environments\<close>

definition demo_env :: env where
  \<comment> \<open>a text-layer backend that finds one page, holding the bytes of the file, and a
      two-page scanned document; the page tasks complete last page first\<close>
  "demo_env =
     \<lparr> pypdf = Some (\<lambda>content. Inr [Some content]),
       fitz = Some (\<lambda>content. Inr [Inr ''img1'', Inr ''img2'']),
       as_completed = (\<lambda>n. rev [0..<n]) \<rparr>"

definition notes_env :: env where
  \<comment> \<open>the scenario of the specification: two pages, the second one empty\<close>
  "notes_env =
     \<lparr> pypdf = Some (\<lambda>content. Inr [Some ''Intro'', Some '' '']),
       fitz = None,
       as_completed = (\<lambda>n. [0..<n]) \<rparr>"

definition echo_ocr :: ocr_func where
  "echo_ocr image_bytes = Inr (Some (''text of '' @ image_bytes))"

definition failing_ocr :: ocr_func where
  "failing_ocr image_bytes = Inl (OtherError ''OPENAI_API_KEY is not set'')"

definition scan_env :: "nat list \<Rightarrow> env" where
  \<comment> \<open>a scanned document of five pages whose page tasks complete in the given order\<close>
  "scan_env order =
     \<lparr> pypdf = None,
       fitz = Some (\<lambda>content. Inr [Inr ''p1'', Inr ''p2'', Inr ''p3'', Inr ''p4'', Inr ''p5'']),
       as_completed = (\<lambda>n. order) \<rparr>"

definition sparse_ocr :: ocr_func where
  \<comment> \<open>finds text on pages 1, 2 and 5, nothing on page 3 and blanks on page 4\<close>
  "sparse_ocr image_bytes =
     (if image_bytes = ''p3'' then Inr None
      else if image_bytes = ''p4'' then Inr (Some ''  '')
      else Inr (Some ('' text of '' @ image_bytes @ '' '')))"

subsection \<open>The dict of the OCR loop, as a fold\<close>

definition store :: "string list \<Rightarrow> (nat \<times> string) list \<Rightarrow> nat \<Rightarrow> (nat \<times> string) list" where
  \<comment> \<open>one step of the loop over the completed tasks, when the task of page \<open>i\<close>
      returned the text \<open>cleans ! i\<close>; used in the proofs only\<close>
  "store cleans results i =
     (if cleans ! i \<noteq> [] then AList.update i (cleans ! i) results else results)"


section \<open>Properties\<close>

subsection \<open>Lists\<close>

lemma takeWhile_ne_all: "c \<notin> set xs \<Longrightarrow> takeWhile (\<lambda>x. x \<noteq> c) xs = xs"
  by (induction xs) auto

lemma takeWhile_ne_append: "c \<notin> set xs \<Longrightarrow> takeWhile (\<lambda>x. x \<noteq> c) (xs @ c # ys) = xs"
  by (induction xs) auto

lemma takeWhile_ne_notin: "c \<notin> set (takeWhile (\<lambda>x. x \<noteq> c) xs)"
  by (induction xs) auto

lemma split_at_first: "c \<in> set xs \<Longrightarrow> \<exists>ys. xs = takeWhile (\<lambda>x. x \<noteq> c) xs @ c # ys"
  by (induction xs) auto

lemma split_at_last:
  assumes "c \<in> set xs"
  shows "\<exists>ys. xs = ys @ c # rev (takeWhile (\<lambda>x. x \<noteq> c) (rev xs))"
proof -
  from assms have "c \<in> set (rev xs)" by simp
  from split_at_first[OF this] obtain ys
    where "rev xs = takeWhile (\<lambda>x. x \<noteq> c) (rev xs) @ c # ys" by blast
  then have "rev (rev xs) = rev (takeWhile (\<lambda>x. x \<noteq> c) (rev xs) @ c # ys)" by simp
  then have "xs = rev ys @ c # rev (takeWhile (\<lambda>x. x \<noteq> c) (rev xs))" by simp
  then show ?thesis by blast
qed

subsection \<open>Paths\<close>

lemma suffix_name: "py_suffix p \<noteq> [] \<Longrightarrow> py_name p \<noteq> []"
  by (auto simp: py_suffix_def Let_def)

lemma name_no_slash: "CHR ''/'' \<notin> set (py_name p)"
  using takeWhile_ne_notin[of "CHR ''/''" "rev p"] by (simp add: py_name_def)

lemma path_split:
  assumes "py_name p \<noteq> []"
  shows "\<exists>d. p = d @ py_name p \<and> (d = [] \<or> last d = CHR ''/'')"
proof (cases "CHR ''/'' \<in> set p")
  case True
  from split_at_last[OF True] obtain ys
    where ys: "p = ys @ CHR ''/'' # rev (takeWhile (\<lambda>x. x \<noteq> CHR ''/'') (rev p))" by blast
  from assms have "p \<noteq> ''.''" by (auto simp: py_name_def)
  then have n: "py_name p = rev (takeWhile (\<lambda>x. x \<noteq> CHR ''/'') (rev p))" by (simp add: py_name_def)
  from ys n have "p = (ys @ ''/'') @ py_name p" by simp
  moreover have "last (ys @ ''/'') = CHR ''/''" by simp
  ultimately show ?thesis by blast
next
  case False
  then have h: "takeWhile (\<lambda>x. x \<noteq> CHR ''/'') (rev p) = rev p"
    by (simp add: takeWhile_ne_all)
  from assms have "p \<noteq> ''.''" by (auto simp: py_name_def)
  then have "py_name p = p" unfolding py_name_def h by simp
  then show ?thesis by simp
qed

lemma name_append:
  assumes "CHR ''/'' \<notin> set n" and "d = [] \<or> last d = CHR ''/''" and "d @ n \<noteq> ''.''"
  shows "py_name (d @ n) = n"
proof (cases "d = []")
  case True
  from assms(1) have h: "takeWhile (\<lambda>c. c \<noteq> CHR ''/'') (rev n) = rev n"
    by (simp add: takeWhile_ne_all)
  from True assms(3) have "n \<noteq> ''.''" by simp
  then have "py_name n = n" unfolding py_name_def h by simp
  with True show ?thesis by simp
next
  case False
  with assms(2) have "d = butlast d @ ''/''"
    using append_butlast_last_id[of d] by simp
  then obtain d' where d: "d = d' @ ''/''" ..
  from assms(1) have "takeWhile (\<lambda>c. c \<noteq> CHR ''/'') (rev n @ CHR ''/'' # rev d') = rev n"
    by (simp add: takeWhile_ne_append)
  then have "rev (takeWhile (\<lambda>c. c \<noteq> CHR ''/'') (rev (d @ n))) = n"
    by (simp add: d)
  with assms(3) show ?thesis by (simp add: py_name_def)
qed

lemma suffix_cases:
  "py_suffix p = [] \<or>
   (\<exists>s ext. s \<noteq> [] \<and> ext \<noteq> [] \<and> py_name p = s @ CHR ''.'' # ext \<and> py_suffix p = CHR ''.'' # ext)"
proof (cases "py_suffix p = []")
  case True then show ?thesis by simp
next
  case False
  let ?n = "py_name p"
  let ?ext = "rev (takeWhile (\<lambda>c. c \<noteq> CHR ''.'') (rev ?n))"
  from False have c: "CHR ''.'' \<in> set ?n" "?ext \<noteq> []" "length ?ext + 1 < length ?n"
    and s: "py_suffix p = CHR ''.'' # ?ext"
    by (auto simp: py_suffix_def Let_def split: if_splits)
  from split_at_last[OF c(1)] obtain ys where ys: "?n = ys @ CHR ''.'' # ?ext" by blast
  then have "length ?n = length ys + length ?ext + 1" by (metis length_append length_Cons Suc_eq_plus1 add.assoc)
  with c(3) have "ys \<noteq> []" by auto
  with ys c(2) s show ?thesis by blast
qed

lemma stem_append: "py_name p = py_stem p @ py_suffix p"
  using suffix_cases[of p] by (auto simp: py_stem_def Let_def)

lemma stem_nonempty: "py_name p \<noteq> [] \<Longrightarrow> py_stem p \<noteq> []"
  using suffix_cases[of p] by (auto simp: py_stem_def Let_def)

lemma stem_no_slash: "CHR ''/'' \<notin> set (py_stem p)"
proof -
  have "set (py_stem p) \<subseteq> set (py_name p)" by (simp add: py_stem_def Let_def set_take_subset)
  with name_no_slash[of p] show ?thesis by blast
qed

lemma with_suffix_md_name:
  assumes "with_suffix p ''.md'' = Inr q"
  shows "py_name q = py_stem p @ ''.md''"
proof -
  from assms have ne: "py_name p \<noteq> []"
    and q: "q = take (length p - length (py_suffix p)) p @ ''.md''"
    by (auto simp: with_suffix_def split: if_splits)
  from path_split[OF ne] obtain d
    where d: "p = d @ py_name p" and dl: "d = [] \<or> last d = CHR ''/''" by blast
  have p3: "p = (d @ py_stem p) @ py_suffix p"
    using d stem_append[of p] by simp
  have "length p - length (py_suffix p) = length (d @ py_stem p)"
    using arg_cong[OF p3, of length] by simp
  then have "take (length p - length (py_suffix p)) p = take (length (d @ py_stem p)) ((d @ py_stem p) @ py_suffix p)"
    using p3 by simp
  then have "take (length p - length (py_suffix p)) p = d @ py_stem p"
    by (simp only: append_eq_conv_conj take_append take_all_iff append_take_drop_id) simp
  with q have q': "q = d @ (py_stem p @ ''.md'')" by simp
  have ns: "CHR ''/'' \<notin> set (py_stem p @ ''.md'')" using stem_no_slash[of p] by simp
  have nd: "d @ (py_stem p @ ''.md'') \<noteq> ''.''" by simp
  have "py_name (d @ (py_stem p @ ''.md'')) = py_stem p @ ''.md''"
    by (rule name_append[OF ns dl nd])
  with q' show ?thesis by simp
qed

lemma suffix_of_md_name:
  assumes "py_name q = s @ ''.md''" and "s \<noteq> []"
  shows "py_suffix q = ''.md'' \<and> py_stem q = s"
proof -
  have "takeWhile (\<lambda>c. c \<noteq> CHR ''.'') (rev (s @ ''.md'')) = ''dm''" by simp
  with assms have 1: "py_suffix q = ''.md''" by (simp add: py_suffix_def Let_def)
  with assms have "py_stem q = s" by (simp add: py_stem_def Let_def)
  with 1 show ?thesis by simp
qed

lemma with_suffix_md_props:
  assumes "with_suffix p ''.md'' = Inr q"
  shows "py_suffix q = ''.md''" and "py_stem q = py_stem p"
proof -
  from assms have ne: "py_name p \<noteq> []" by (auto simp: with_suffix_def split: if_splits)
  from suffix_of_md_name[OF with_suffix_md_name[OF assms] stem_nonempty[OF ne]]
  show "py_suffix q = ''.md''" and "py_stem q = py_stem p" by simp_all
qed

lemma lower_md: "lower ''.md'' = ''.md''"
  by (simp add: lower_def lower_char_def)

text \<open>A path with a suffix has a name, so its sibling always exists as a path.\<close>

lemma with_suffix_total: "py_suffix p \<noteq> [] \<Longrightarrow> \<exists>q. with_suffix p sfx = Inr q"
  by (auto simp: with_suffix_def dest: suffix_name)

subsection \<open>The converter: reuse and success\<close>

lemma convert_reuse:
  assumes "fs src = Some content" and "lower (py_suffix src) \<noteq> ''.md''"
    and "with_suffix src ''.md'' = Inr md" and "fs md \<noteq> None"
  shows "convert_to_markdown e fs src qc ocr u = (Inr md, fs)"
  using assms by (simp add: convert_to_markdown_def Let_def)

lemma convert_success_cases:
  assumes "convert_to_markdown e fs src qc ocr u = (Inr r, fs')"
  shows "(lower (py_suffix src) = ''.md'' \<and> r = src \<and> fs' = fs \<and> fs src \<noteq> None) \<or>
         (lower (py_suffix src) \<noteq> ''.md'' \<and> with_suffix src ''.md'' = Inr r \<and> fs src \<noteq> None \<and>
            ((fs r \<noteq> None \<and> fs' = fs) \<or> (fs r = None \<and> (\<exists>text. fs' = fs(r \<mapsto> text)))))"
  using assms
  by (auto simp: convert_to_markdown_def Let_def
           split: option.splits sum.splits if_splits)


subsection \<open>Text-layer merge\<close>





subsection \<open>OCR merge\<close>

lemma collect_completed_ok:
  assumes "\<forall>i\<in>set order. f i = Inr (i, cleans ! i)"
  shows "collect_completed (map f order) results = Inr (foldl (store cleans) results order)"
  using assms by (induction order arbitrary: results) (simp_all add: store_def)

lemma foldl_store_map_of:
  "map_of (foldl (store cleans) results order) k =
     (if k \<in> set order \<and> cleans ! k \<noteq> [] then Some (cleans ! k) else map_of results k)"
  by (induction order arbitrary: results) (auto simp: store_def update_conv')

lemma foldl_store_keys:
  "fst ` set (foldl (store cleans) results order) =
     fst ` set results \<union> {i \<in> set order. cleans ! i \<noteq> []}"
  by (induction order arbitrary: results) (auto simp: store_def dom_update)

lemma foldl_store_distinct:
  "distinct (map fst results) \<Longrightarrow> distinct (map fst (foldl (store cleans) results order))"
  by (induction order arbitrary: results) (auto simp: store_def distinct_update)

lemma sorted_keys:
  assumes "set order = {0..<n}"
  shows "sort (map fst (foldl (store cleans) [] order)) = filter (\<lambda>i. cleans ! i \<noteq> []) [0..<n]"
proof (rule sorted_distinct_set_unique)
  show "sorted (sort (map fst (foldl (store cleans) [] order)))" by simp
  show "distinct (sort (map fst (foldl (store cleans) [] order)))"
    using foldl_store_distinct[of "[]" cleans order] by simp
  show "sorted (filter (\<lambda>i. cleans ! i \<noteq> []) [0..<n])" by (simp add: sorted_wrt_filter)
  show "distinct (filter (\<lambda>i. cleans ! i \<noteq> []) [0..<n])" by simp
  show "set (sort (map fst (foldl (store cleans) [] order))) = set (filter (\<lambda>i. cleans ! i \<noteq> []) [0..<n])"
    using foldl_store_keys[of cleans "[]" order] assms by auto
qed

lemma ocr_lines_ok:
  assumes "\<forall>k\<in>set keys. map_of results k = Some (cleans ! k)"
  shows "ocr_lines results keys lines =
           Inr (lines @ concat (map (\<lambda>i. page_section (i + 1, cleans ! i)) keys))"
  using assms by (induction keys arbitrary: lines) (simp_all add: page_section_def)

lemma enumerate_as_map: "enumerate k xs = map (\<lambda>i. (i + k, xs ! i)) [0..<length xs]"
  by (rule nth_equalityI) (simp_all add: nth_enumerate_eq add.commute)

lemma nonblank_as_filter:
  "nonblank_pages cleans =
     map (\<lambda>i. (i + 1, cleans ! i)) (filter (\<lambda>i. cleans ! i \<noteq> []) [0..<length cleans])"
  unfolding nonblank_pages_def enumerate_as_map filter_map by (simp add: comp_def)

lemma all_blank_iff: "all_blank cleans \<longleftrightarrow> {i \<in> {0..<length cleans}. cleans ! i \<noteq> []} = {}"
  by (auto simp: all_blank_def list_all_length)

lemma ocr_mode_merge:
  assumes "fitz e = Some opener" and "opener content = Inr doc"
    and "length cleans = length doc"
    and "\<forall>i<length doc. render_and_ocr doc ocr i = Inr (i, cleans ! i)"
    and "set (as_completed e (length doc)) = {0..<length doc}"
  shows "convert_pdf_to_markdown_ocr e content pdf_path (Some ocr) =
           (if doc = [] then Inl (ConversionError (''No pages in PDF for OCR: '' @ pdf_path))
            else if all_blank cleans
            then Inl (ConversionError (''OCR produced no content for PDF: '' @ pdf_path))
            else Inr (merge_pages cleans))"
proof (cases "doc = []")
  case True
  with assms(1,2) show ?thesis by (simp add: convert_pdf_to_markdown_ocr_def)
next
  case False
  let ?order = "as_completed e (length doc)"
  let ?res = "foldl (store cleans) [] ?order"
  from assms(4,5) have "\<forall>i\<in>set ?order. render_and_ocr doc ocr i = Inr (i, cleans ! i)" by simp
  then have cc: "collect_completed (map (render_and_ocr doc ocr) ?order) [] = Inr ?res"
    by (rule collect_completed_ok)
  have keys: "sort (map fst ?res) = filter (\<lambda>i. cleans ! i \<noteq> []) [0..<length cleans]"
    using sorted_keys[OF assms(5)] assms(3) by simp
  have "fst ` set ?res = {i \<in> {0..<length cleans}. cleans ! i \<noteq> []}"
    using foldl_store_keys[of cleans "[]" ?order] assms(3,5) by simp
  then have empty: "?res = [] \<longleftrightarrow> all_blank cleans"
    unfolding all_blank_iff by (metis image_is_empty set_empty)
  have "\<forall>k\<in>set (sort (map fst ?res)). map_of ?res k = Some (cleans ! k)"
    unfolding keys using assms(3,5) by (simp add: foldl_store_map_of)
  then have "ocr_lines ?res (sort (map fst ?res)) [] =
               Inr ([] @ concat (map (\<lambda>i. page_section (i + 1, cleans ! i)) (sort (map fst ?res))))"
    by (rule ocr_lines_ok)
  then have ol: "ocr_lines ?res (sort (map fst ?res)) [] =
               Inr (concat (map page_section (nonblank_pages cleans)))"
    unfolding keys nonblank_as_filter by (simp add: comp_def)
  show ?thesis
  proof (cases "all_blank cleans")
    case True
    with empty have "?res = []" by simp
    with False True assms(1,2) cc show ?thesis
      by (simp add: convert_pdf_to_markdown_ocr_def)
  next
    case nb: False
    with empty have "?res \<noteq> []" by simp
    with False nb assms(1,2) cc ol show ?thesis
      by (simp add: convert_pdf_to_markdown_ocr_def merge_pages_def)
  qed
qed

subsection \<open>Whitespace stripping\<close>



subsection \<open>Evaluations\<close>

lemma ev_suffix_txt: "py_suffix ''notes.txt'' = ''.txt''" by code_simp
lemma ev_lower_txt: "lower ''.txt'' = ''.txt''" by code_simp
lemma ev_lower_pdf: "lower ''.pdf'' = ''.pdf''" by code_simp
lemma ev_sibling_txt: "with_suffix ''notes.txt'' ''.md'' = Inr ''notes.md''" by code_simp
lemma ev_strip: "strip ''  hi \<newline>'' = ''hi''" by code_simp
lemma ev_suffix_pdf: "py_suffix ''scan.pdf'' = ''.pdf''" by code_simp
lemma ev_sibling_pdf: "with_suffix ''scan.pdf'' ''.md'' = Inr ''scan.md''" by code_simp

lemma ev_convert_txt:
  "convert_to_markdown demo_env [''notes.txt'' \<mapsto> ''  hi \<newline>''] ''notes.txt'' None None False
     = (Inr ''notes.md'', [''notes.txt'' \<mapsto> ''  hi \<newline>'', ''notes.md'' \<mapsto> ''hi\<newline>''])"
  by (simp add: convert_to_markdown_def ev_suffix_txt ev_lower_txt ev_sibling_txt ev_strip
        gate_rejects_def)

section \<open>The claims\<close>

subsection \<open>The returned path, and the OCR function\<close>



text \<open>
  C9 (the OCR function does not interfere in text-layer mode). With \<open>use_ocr\<close> false, the
  whole result of \<open>convert_to_markdown\<close> (the returned path or the failure, and the file
  system left) is the same for every value of the \<open>ocr_func\<close> argument; the OCR function,
  which only the result could reveal, is not consulted.
\<close>

theorem ocr_func_noninterference:
  "convert_to_markdown e fs src qc ocr1 False = convert_to_markdown e fs src qc ocr2 False"
  by (simp add: convert_to_markdown_def Let_def split: option.split sum.split)

theorem ocr_func_noninterference_witness:
  "convert_to_markdown demo_env [''scan.pdf'' \<mapsto> ''Body''] ''scan.pdf'' None (Some failing_ocr) False
     = convert_to_markdown demo_env [''scan.pdf'' \<mapsto> ''Body''] ''scan.pdf'' None None False"
  by (rule ocr_func_noninterference)

text \<open>
  C8 (missing OCR function). For an existing PDF source with no derived sibling,
  \<open>convert_to_markdown\<close> with \<open>use_ocr\<close> true and no OCR function fails with the
  \<open>ConversionError\<close> of the missing OCR function and leaves the file system as it was. The
  result is the same for every environment, so no page is opened, rendered or read.
\<close>

theorem missing_ocr_function:
  assumes "fs src = Some content" and "lower (py_suffix src) = ''.pdf''"
    and "with_suffix src ''.md'' = Inr md" and "fs md = None"
  shows "convert_to_markdown e fs src qc None True =
           (Inl (ConversionError ''OCR conversion requested but no OCR function was provided''), fs)"
  using assms by (simp add: convert_to_markdown_def convert_pdf_to_markdown_ocr_def Let_def)

theorem missing_ocr_function_witness:
  "convert_to_markdown demo_env [''scan.pdf'' \<mapsto> ''Body''] ''scan.pdf'' None None True =
     (Inl (ConversionError ''OCR conversion requested but no OCR function was provided''),
      [''scan.pdf'' \<mapsto> ''Body''])"
  by (rule missing_ocr_function[where content = "''Body''" and md = "''scan.md''"])
     (simp_all add: ev_suffix_pdf ev_lower_pdf ev_sibling_pdf)

subsection \<open>Reuse, normalisation and the quality gate\<close>

lemma sibling_differs:
  assumes "lower (py_suffix src) \<noteq> ''.md''" and "with_suffix src ''.md'' = Inr md"
  shows "md \<noteq> src"
  using assms with_suffix_md_props(1)[OF assms(2)] by (auto simp: lower_md)

text \<open>
  C6 (standard reuse is idempotent). For a \<open>.txt\<close> or \<open>.pdf\<close> source whose derived sibling
  exists, \<open>convert_to_markdown\<close> returns the sibling path and leaves the file system as it
  was, whatever the environment, the quality gate, the OCR function and the OCR flag are:
  neither extraction nor the gate can have decided the result, and nothing is written.
  Hence, when a first call succeeds, it returns the sibling, the sibling exists afterwards,
  and a second call with any arguments returns the same path and changes nothing.
\<close>

theorem standard_reuse_idempotent:
  assumes "fs src = Some content"
    and "lower (py_suffix src) = ''.txt'' \<or> lower (py_suffix src) = ''.pdf''"
    and "with_suffix src ''.md'' = Inr md"
  shows "(fs md \<noteq> None \<longrightarrow> convert_to_markdown e fs src qc ocr u = (Inr md, fs)) \<and>
         (convert_to_markdown e fs src qc ocr u = (Inr p, fs1) \<longrightarrow>
            p = md \<and> fs1 md \<noteq> None \<and> (fs md \<noteq> None \<longrightarrow> fs1 = fs) \<and>
            convert_to_markdown e' fs1 src qc' ocr' u' = (Inr md, fs1))"
proof (intro conjI impI)
  from assms(2) have nmd: "lower (py_suffix src) \<noteq> ''.md''" by auto
  {
    assume "fs md \<noteq> None"
    with assms(1) nmd assms(3)
    show "convert_to_markdown e fs src qc ocr u = (Inr md, fs)" by (rule convert_reuse)
  }
  assume run: "convert_to_markdown e fs src qc ocr u = (Inr p, fs1)"
  from convert_success_cases[OF run] nmd assms(3)
  have p: "p = md" and fs1: "(fs md \<noteq> None \<and> fs1 = fs) \<or> (fs md = None \<and> (\<exists>text. fs1 = fs(md \<mapsto> text)))"
    by auto
  show "p = md" by (rule p)
  from fs1 show sib: "fs1 md \<noteq> None" by auto
  {
    assume "fs md \<noteq> None"
    with fs1 show "fs1 = fs" by auto
  }
  from sibling_differs[OF nmd assms(3)] fs1 assms(1) have "fs1 src = Some content" by auto
  from this nmd assms(3) sib
  show "convert_to_markdown e' fs1 src qc' ocr' u' = (Inr md, fs1)" by (rule convert_reuse)
qed

theorem standard_reuse_idempotent_witness:
  "convert_to_markdown demo_env [''notes.txt'' \<mapsto> ''  hi \<newline>''] ''notes.txt'' None None False
     = (Inr ''notes.md'', [''notes.txt'' \<mapsto> ''  hi \<newline>'', ''notes.md'' \<mapsto> ''hi\<newline>''])
   \<and> convert_to_markdown notes_env
         [''notes.txt'' \<mapsto> ''  hi \<newline>'', ''notes.md'' \<mapsto> ''hi\<newline>''] ''notes.txt''
         (Some (\<lambda>text. False)) (Some failing_ocr) True
     = (Inr ''notes.md'', [''notes.txt'' \<mapsto> ''  hi \<newline>'', ''notes.md'' \<mapsto> ''hi\<newline>''])"
proof -
  have src: "[''notes.txt'' \<mapsto> ''  hi \<newline>''] ''notes.txt'' = Some ''  hi \<newline>''" by simp
  have sfx: "lower (py_suffix ''notes.txt'') = ''.txt'' \<or> lower (py_suffix ''notes.txt'') = ''.pdf''"
    by (simp add: ev_suffix_txt ev_lower_txt)
  from standard_reuse_idempotent[where fs = "[''notes.txt'' \<mapsto> ''  hi \<newline>'']"
      and src = "''notes.txt''" and e = demo_env and qc = None and ocr = None and u = False
      and p = "''notes.md''"
      and ?fs1.0 = "[''notes.txt'' \<mapsto> ''  hi \<newline>'', ''notes.md'' \<mapsto> ''hi\<newline>'']"
      and e' = notes_env and qc' = "Some (\<lambda>text. False)" and ocr' = "Some failing_ocr"
      and u' = True, OF src sfx ev_sibling_txt]
    ev_convert_txt
  show ?thesis by simp
qed






subsection \<open>Page order under OCR\<close>

lemma collect_completed_Inr:
  "collect_completed tasks results = Inr res \<Longrightarrow> \<forall>t\<in>set tasks. \<exists>x. t = Inr x"
  by (induction tasks results rule: collect_completed.induct) auto

lemma render_and_ocr_index: "render_and_ocr doc ocr i = Inr (j, c) \<Longrightarrow> j = i"
  by (auto simp: render_and_ocr_def split: sum.splits)

lemma ocr_success_tasks:
  assumes "fitz e = Some opener" and "opener content = Inr doc"
    and "convert_pdf_to_markdown_ocr e content pdf_path (Some ocr) = Inr md"
    and "i \<in> set (as_completed e (length doc))"
  shows "\<exists>c. render_and_ocr doc ocr i = Inr (i, c)"
proof -
  from assms(1-3) obtain res
    where "collect_completed (map (render_and_ocr doc ocr) (as_completed e (length doc))) [] = Inr res"
    by (auto simp: convert_pdf_to_markdown_ocr_def split: if_splits sum.splits)
  from collect_completed_Inr[OF this] assms(4)
  obtain x where x: "render_and_ocr doc ocr i = Inr x" by auto
  obtain j c where "x = (j, c)" by (cases x)
  with x render_and_ocr_index[of doc ocr i j c] show ?thesis by simp
qed

lemma nonblank_page_numbers:
  "map fst (nonblank_pages cleans) = map Suc (filter (\<lambda>i. cleans ! i \<noteq> []) [0..<length cleans])"
  by (simp add: nonblank_as_filter comp_def)

lemma nonblank_ascending: "sorted_wrt (<) (map fst (nonblank_pages cleans))"
proof -
  have "sorted_wrt (<) (filter (\<lambda>i. cleans ! i \<noteq> []) [0..<length cleans])"
    by (rule sorted_wrt_filter) simp
  then show ?thesis
    unfolding nonblank_page_numbers by (simp add: sorted_wrt_map)
qed

text \<open>
  C3 (page order is deterministic under OCR). Let two environments open the same document
  and differ at most in the order in which the page tasks complete, each order being a
  permutation of the page indices. If the OCR conversion succeeds under the first order,
  it succeeds under the second with the same Markdown. That Markdown is the merge of the
  cleaned page texts: every page task returned its own index, the sections are those of
  the pages with text, numbered from 1, and their page numbers are strictly ascending.
  The whole result of \<open>convert_to_markdown\<close> in OCR mode is then the same under both
  orders.
\<close>

theorem ocr_page_order_deterministic:
  assumes "fitz e1 = Some opener" and "fitz e2 = Some opener" and "opener content = Inr doc"
    and "mset (as_completed e1 (length doc)) = mset [0..<length doc]"
    and "mset (as_completed e2 (length doc)) = mset [0..<length doc]"
    and "convert_pdf_to_markdown_ocr e1 content src (Some ocr) = Inr md"
  shows "convert_pdf_to_markdown_ocr e2 content src (Some ocr) = Inr md \<and>
         (\<exists>cleans. length cleans = length doc \<and>
            (\<forall>i<length doc. render_and_ocr doc ocr i = Inr (i, cleans ! i)) \<and>
            md = merge_pages cleans \<and>
            map fst (nonblank_pages cleans) =
              map Suc (filter (\<lambda>i. cleans ! i \<noteq> []) [0..<length doc]) \<and>
            sorted_wrt (<) (map fst (nonblank_pages cleans))) \<and>
         (fs src = Some content \<longrightarrow>
            convert_to_markdown e2 fs src qc (Some ocr) True =
            convert_to_markdown e1 fs src qc (Some ocr) True)"
proof -
  let ?n = "length doc"
  let ?f = "render_and_ocr doc ocr"
  define cleans where "cleans = map (\<lambda>i. case ?f i of Inr (j, c) \<Rightarrow> c | Inl exc \<Rightarrow> []) [0..<?n]"
  from assms(4) have s1: "set (as_completed e1 ?n) = {0..<?n}"
    using mset_eq_setD by fastforce
  from assms(5) have s2: "set (as_completed e2 ?n) = {0..<?n}"
    using mset_eq_setD by fastforce
  have len: "length cleans = ?n" by (simp add: cleans_def)
  have tasks: "\<forall>i<?n. ?f i = Inr (i, cleans ! i)"
  proof (intro allI impI)
    fix i assume i: "i < ?n"
    with s1 have "i \<in> set (as_completed e1 ?n)" by simp
    from ocr_success_tasks[OF assms(1,3,6) this] obtain c where "?f i = Inr (i, c)" ..
    with i show "?f i = Inr (i, cleans ! i)" by (simp add: cleans_def)
  qed
  note m1 = ocr_mode_merge[OF assms(1,3) len tasks s1, of src]
  note m2 = ocr_mode_merge[OF assms(2,3) len tasks s2, of src]
  from m1 assms(6) have md: "md = merge_pages cleans"
    by (simp split: if_splits)
  from m1 m2 have same: "convert_pdf_to_markdown_ocr e2 content src (Some ocr) =
      convert_pdf_to_markdown_ocr e1 content src (Some ocr)" by simp
  with assms(6) have r2: "convert_pdf_to_markdown_ocr e2 content src (Some ocr) = Inr md" by simp
  have conv: "convert_to_markdown e2 fs src qc (Some ocr) True =
              convert_to_markdown e1 fs src qc (Some ocr) True" if "fs src = Some content"
    using that same by (simp add: convert_to_markdown_def Let_def split: sum.split)
  have nums: "map fst (nonblank_pages cleans) =
              map Suc (filter (\<lambda>i. cleans ! i \<noteq> []) [0..<length doc])"
    using nonblank_page_numbers[of cleans] len by simp
  from r2 len tasks md nums nonblank_ascending[of cleans] conv show ?thesis by blast
qed

lemma ev_scan_shuffled:
  "convert_pdf_to_markdown_ocr (scan_env [1, 4, 0, 3, 2]) ''%PDF'' ''scan.pdf'' (Some sparse_ocr) =
     Inr ''Page 1\<newline>\<newline>text of p1\<newline>\<newline>Page 2\<newline>\<newline>text of p2\<newline>\<newline>Page 5\<newline>\<newline>text of p5\<newline>''"
  by code_simp

lemma ev_order_shuffled:
  "mset (as_completed (scan_env [1, 4, 0, 3, 2]) 5) = mset [0..<5]"
  by code_simp

lemma ev_order_sorted:
  "mset (as_completed (scan_env [0, 1, 2, 3, 4]) 5) = mset [0..<5]"
  by code_simp

theorem ocr_page_order_deterministic_witness:
  "convert_pdf_to_markdown_ocr (scan_env [1, 4, 0, 3, 2]) ''%PDF'' ''scan.pdf'' (Some sparse_ocr) =
     Inr ''Page 1\<newline>\<newline>text of p1\<newline>\<newline>Page 2\<newline>\<newline>text of p2\<newline>\<newline>Page 5\<newline>\<newline>text of p5\<newline>''
   \<and> convert_pdf_to_markdown_ocr (scan_env [0, 1, 2, 3, 4]) ''%PDF'' ''scan.pdf'' (Some sparse_ocr) =
     Inr ''Page 1\<newline>\<newline>text of p1\<newline>\<newline>Page 2\<newline>\<newline>text of p2\<newline>\<newline>Page 5\<newline>\<newline>text of p5\<newline>''"
proof -
  let ?doc = "[Inr ''p1'', Inr ''p2'', Inr ''p3'', Inr ''p4'', Inr ''p5''] :: (py_exn + png) list"
  let ?opener = "\<lambda>content::string. Inr ?doc :: py_exn + (py_exn + png) list"
  have f1: "fitz (scan_env [1, 4, 0, 3, 2]) = Some ?opener" by (simp add: scan_env_def)
  have f2: "fitz (scan_env [0, 1, 2, 3, 4]) = Some ?opener" by (simp add: scan_env_def)
  have op: "?opener ''%PDF'' = Inr ?doc" by simp
  have len: "length ?doc = 5" by simp
  have o1: "mset (as_completed (scan_env [1, 4, 0, 3, 2]) (length ?doc)) = mset [0..<length ?doc]"
    unfolding len by (rule ev_order_shuffled)
  have o2: "mset (as_completed (scan_env [0, 1, 2, 3, 4]) (length ?doc)) = mset [0..<length ?doc]"
    unfolding len by (rule ev_order_sorted)
  from ocr_page_order_deterministic[where ?e1.0 = "scan_env [1, 4, 0, 3, 2]"
      and ?e2.0 = "scan_env [0, 1, 2, 3, 4]" and opener = ?opener and content = "''%PDF''"
      and doc = ?doc and src = "''scan.pdf''" and ocr = sparse_ocr,
      OF f1 f2 op o1 o2 ev_scan_shuffled, THEN conjunct1]
    ev_scan_shuffled
  show ?thesis by simp
qed

subsection \<open>The merge format\<close>





subsection \<open>Failures\<close>






lemma convert_missing:
  "fs src = None \<Longrightarrow>
   convert_to_markdown e fs src qc ocr_func use_ocr =
     (Inl (FileNotFoundError (''Source file not found: '' @ src)), fs)"
  by (simp add: convert_to_markdown_def)

lemma convert_md:
  "fs src = Some content \<Longrightarrow> lower (py_suffix src) = ''.md'' \<Longrightarrow>
   convert_to_markdown e fs src qc ocr_func use_ocr = (Inr src, fs)"
  by (simp add: convert_to_markdown_def)

lemma convert_no_name:
  "fs src = Some content \<Longrightarrow> lower (py_suffix src) \<noteq> ''.md'' \<Longrightarrow>
   with_suffix src ''.md'' = Inl x \<Longrightarrow>
   convert_to_markdown e fs src qc ocr_func use_ocr = (Inl x, fs)"
  by (simp add: convert_to_markdown_def Let_def)

lemma convert_txt:
  "fs src = Some content \<Longrightarrow> lower (py_suffix src) = ''.txt'' \<Longrightarrow>
   with_suffix src ''.md'' = Inr md \<Longrightarrow> fs md = None \<Longrightarrow>
   convert_to_markdown e fs src qc ocr_func use_ocr =
     (if gate_rejects qc (strip content @ ''\<newline>'')
      then (Inl (ConversionError (''Text from '' @ src @ '' failed quality check'')), fs)
      else (Inr md, fs(md \<mapsto> strip content @ ''\<newline>'')))"
  by (simp add: convert_to_markdown_def Let_def)

lemma convert_pdf:
  "fs src = Some content \<Longrightarrow> lower (py_suffix src) = ''.pdf'' \<Longrightarrow>
   with_suffix src ''.md'' = Inr md \<Longrightarrow> fs md = None \<Longrightarrow>
   convert_to_markdown e fs src qc ocr_func use_ocr =
     (case (if use_ocr then convert_pdf_to_markdown_ocr e content src ocr_func
            else convert_pdf_to_markdown_text e content src) of
        Inl x \<Rightarrow> (Inl x, fs)
      | Inr markdown_text \<Rightarrow>
          if gate_rejects qc markdown_text
          then (Inl (ConversionError
                      (''Extracted text for '' @ src @ '' failed quality check'')), fs)
          else (Inr md, fs(md \<mapsto> markdown_text)))"
  by (simp add: convert_to_markdown_def Let_def)

lemma convert_unsupported:
  "fs src = Some content \<Longrightarrow> lower (py_suffix src) \<noteq> ''.md'' \<Longrightarrow>
   lower (py_suffix src) \<noteq> ''.txt'' \<Longrightarrow> lower (py_suffix src) \<noteq> ''.pdf'' \<Longrightarrow>
   with_suffix src ''.md'' = Inr md \<Longrightarrow> fs md = None \<Longrightarrow>
   convert_to_markdown e fs src qc ocr_func use_ocr =
     (Inl (ConversionError
            (''Unsupported file type for conversion: '' @ lower (py_suffix src))), fs)"
  by (simp add: convert_to_markdown_def Let_def)

lemma convert_failure_shape:
  assumes "convert_to_markdown e fs src qc ocr_func use_ocr = (Inl exc, fs')"
  shows "fs' = fs \<and>
         ((fs src = None \<and> exc = FileNotFoundError (''Source file not found: '' @ src)) \<or>
          (\<exists>content. fs src = Some content \<and>
             (with_suffix src ''.md'' = Inl exc \<or>
              exc = ConversionError (''Text from '' @ src @ '' failed quality check'') \<or>
              exc = ConversionError (''Extracted text for '' @ src @ '' failed quality check'') \<or>
              exc = ConversionError
                      (''Unsupported file type for conversion: '' @ lower (py_suffix src)) \<or>
              (use_ocr \<and> convert_pdf_to_markdown_ocr e content src ocr_func = Inl exc) \<or>
              (\<not> use_ocr \<and> convert_pdf_to_markdown_text e content src = Inl exc))))"
proof (cases "fs src")
  case None
  from assms[unfolded convert_missing[where fs = fs and src = src, OF None]] None show ?thesis by simp
next
  case (Some content)
  let ?s = "lower (py_suffix src)"
  show ?thesis
  proof (cases "?s = ''.md''")
    case True
    from assms[unfolded convert_md[where fs = fs and src = src, OF Some True]] show ?thesis by simp
  next
    case nmd: False
    show ?thesis
    proof (cases "with_suffix src ''.md''")
      case (Inl x)
      from assms[unfolded convert_no_name[where fs = fs and src = src, OF Some nmd Inl]] have "exc = x" "fs' = fs" by simp_all
      with Inl Some show ?thesis by simp
    next
      case (Inr md)
      show ?thesis
      proof (cases "fs md")
        case sib: (Some old)
        then have "fs md \<noteq> None" by simp
        from assms[unfolded convert_reuse[where fs = fs and src = src, OF Some nmd Inr this]] show ?thesis by simp
      next
        case None
        show ?thesis
        proof (cases "?s = ''.txt''")
          case True
          from assms[unfolded convert_txt[where fs = fs and src = src, OF Some True Inr None]]
          have "exc = ConversionError (''Text from '' @ src @ '' failed quality check'')" "fs' = fs"
            by (simp_all split: if_splits)
          with Some show ?thesis by simp
        next
          case ntxt: False
          show ?thesis
          proof (cases "?s = ''.pdf''")
            case False
            from assms[unfolded convert_unsupported[where fs = fs and src = src, OF Some nmd ntxt False Inr None]]
            have "exc = ConversionError (''Unsupported file type for conversion: '' @ ?s)" "fs' = fs"
              by simp_all
            with Some show ?thesis by simp
          next
            case True
            note eq = assms[unfolded convert_pdf[where fs = fs and src = src, OF Some True Inr None]]
            show ?thesis
            proof (cases use_ocr)
              case ocr: True
              show ?thesis
              proof (cases "convert_pdf_to_markdown_ocr e content src ocr_func")
                case (Inl x)
                with eq ocr have "exc = x" "fs' = fs" by simp_all
                with Inl ocr Some show ?thesis by simp
              next
                case (Inr t)
                with eq ocr
                have "exc = ConversionError (''Extracted text for '' @ src @ '' failed quality check'')"
                  "fs' = fs" by (simp_all split: if_splits)
                with Some show ?thesis by simp
              qed
            next
              case layer: False
              show ?thesis
              proof (cases "convert_pdf_to_markdown_text e content src")
                case (Inl x)
                with eq layer have "exc = x" "fs' = fs" by simp_all
                with Inl layer Some show ?thesis by simp
              next
                case (Inr t)
                with eq layer
                have "exc = ConversionError (''Extracted text for '' @ src @ '' failed quality check'')"
                  "fs' = fs" by (simp_all split: if_splits)
                with Some show ?thesis by simp
              qed
            qed
          qed
        qed
      qed
    qed
  qed
qed










subsection \<open>The batch loop and the cheatsheet loader\<close>

text \<open>The batch loop skips a file whose conversion raises \<open>ConversionError\<close>.\<close>

lemma gather_skips_conversion_error:
  assumes "convert_to_markdown e fs path None (if use_ocr then Some llm_ocr else None)
             (if lower (py_suffix path) = ''.pdf'' then use_ocr else False) =
           (Inl (ConversionError msg), fs')"
  shows "gather_markdown_files e llm_ocr fs (path # paths) use_ocr markdown_texts =
         gather_markdown_files e llm_ocr fs' paths use_ocr markdown_texts"
proof -
  from convert_failure_shape[OF assms] have "fs' = fs" by (rule conjunct1)
  with assms show ?thesis by (simp add: Let_def)
qed

lemma load_cheatsheet_reads_md:
  "fs (joinpath course_dir ''cheatsheet.md'') = Some text \<Longrightarrow>
   load_cheatsheet e llm_ocr fs course_dir use_ocr = (Inr text, fs)"
  by (simp add: load_cheatsheet_def Let_def)

lemma ev_join_md: "joinpath ''course'' ''cheatsheet.md'' = ''course/cheatsheet.md''" by code_simp
lemma ev_join_pdf: "joinpath ''course'' ''cheatsheet.pdf'' = ''course/cheatsheet.pdf''" by code_simp
lemma ev_suffix_cheat: "py_suffix ''course/cheatsheet.pdf'' = ''.pdf''" by code_simp
lemma ev_sibling_cheat:
  "with_suffix ''course/cheatsheet.pdf'' ''.md'' = Inr ''course/cheatsheet.md''" by code_simp
lemma ev_extract_v1:
  "convert_pdf_to_markdown_text demo_env ''v1'' ''course/cheatsheet.pdf'' =
     Inr ''Page 1\<newline>\<newline>v1\<newline>''" by code_simp
lemma ev_extract_v2:
  "convert_pdf_to_markdown_text demo_env ''v2'' ''course/cheatsheet.pdf'' =
     Inr ''Page 1\<newline>\<newline>v2\<newline>''" by code_simp

lemma ev_first_convert:
  "convert_to_markdown demo_env [''course/cheatsheet.pdf'' \<mapsto> ''v1''] ''course/cheatsheet.pdf''
       None None False =
     (Inr ''course/cheatsheet.md'',
      [''course/cheatsheet.pdf'' \<mapsto> ''v1'',
       ''course/cheatsheet.md'' \<mapsto> ''Page 1\<newline>\<newline>v1\<newline>''])"
proof -
  have "convert_to_markdown demo_env [''course/cheatsheet.pdf'' \<mapsto> ''v1'']
          ''course/cheatsheet.pdf'' None None False =
        (case (if False then convert_pdf_to_markdown_ocr demo_env ''v1'' ''course/cheatsheet.pdf'' None
               else convert_pdf_to_markdown_text demo_env ''v1'' ''course/cheatsheet.pdf'') of
           Inl x \<Rightarrow> (Inl x, [''course/cheatsheet.pdf'' \<mapsto> ''v1''])
         | Inr markdown_text \<Rightarrow>
             if gate_rejects None markdown_text
             then (Inl (ConversionError
                     (''Extracted text for '' @ ''course/cheatsheet.pdf'' @ '' failed quality check'')),
                   [''course/cheatsheet.pdf'' \<mapsto> ''v1''])
             else (Inr ''course/cheatsheet.md'',
                   [''course/cheatsheet.pdf'' \<mapsto> ''v1'', ''course/cheatsheet.md'' \<mapsto> markdown_text]))"
    by (rule convert_pdf[where content = "''v1''"])
       (simp_all add: ev_suffix_cheat ev_lower_pdf ev_sibling_cheat)
  then show ?thesis by (simp add: ev_extract_v1 gate_rejects_def)
qed

text \<open>
  C1 (forced-fresh cheatsheet). The docstring of \<^verbatim>\<open>_load_cheatsheet\<close> promises a fresh
  conversion of \<^verbatim>\<open>cheatsheet.pdf\<close> on every run. The code does otherwise: the first run on
  a directory holding only the PDF writes the sibling \<^verbatim>\<open>cheatsheet.md\<close>; after the PDF has
  changed (\<open>v2\<close>), the second run returns the text of the first run, read from that
  sibling, and \<open>convert_to_markdown\<close> on the PDF returns the sibling without extracting,
  although extraction would now give the text of \<open>v2\<close>.
\<close>

theorem cheatsheet_second_run_is_stale:
  "load_cheatsheet demo_env echo_ocr [''course/cheatsheet.pdf'' \<mapsto> ''v1''] ''course'' False =
     (Inr ''Page 1\<newline>\<newline>v1\<newline>'',
      [''course/cheatsheet.pdf'' \<mapsto> ''v1'',
       ''course/cheatsheet.md'' \<mapsto> ''Page 1\<newline>\<newline>v1\<newline>''])
   \<and> load_cheatsheet demo_env echo_ocr
        [''course/cheatsheet.pdf'' \<mapsto> ''v2'',
         ''course/cheatsheet.md'' \<mapsto> ''Page 1\<newline>\<newline>v1\<newline>''] ''course'' False =
     (Inr ''Page 1\<newline>\<newline>v1\<newline>'',
      [''course/cheatsheet.pdf'' \<mapsto> ''v2'',
       ''course/cheatsheet.md'' \<mapsto> ''Page 1\<newline>\<newline>v1\<newline>''])
   \<and> convert_to_markdown demo_env
        [''course/cheatsheet.pdf'' \<mapsto> ''v2'',
         ''course/cheatsheet.md'' \<mapsto> ''Page 1\<newline>\<newline>v1\<newline>'']
        ''course/cheatsheet.pdf'' None None False =
     (Inr ''course/cheatsheet.md'',
      [''course/cheatsheet.pdf'' \<mapsto> ''v2'',
       ''course/cheatsheet.md'' \<mapsto> ''Page 1\<newline>\<newline>v1\<newline>''])
   \<and> convert_pdf_to_markdown_text demo_env ''v2'' ''course/cheatsheet.pdf'' =
     Inr ''Page 1\<newline>\<newline>v2\<newline>''"
proof (intro conjI)
  let ?fs1 = "[''course/cheatsheet.pdf'' \<mapsto> ''v2'',
               ''course/cheatsheet.md'' \<mapsto> ''Page 1\<newline>\<newline>v1\<newline>'']"
  show "load_cheatsheet demo_env echo_ocr [''course/cheatsheet.pdf'' \<mapsto> ''v1''] ''course'' False =
     (Inr ''Page 1\<newline>\<newline>v1\<newline>'',
      [''course/cheatsheet.pdf'' \<mapsto> ''v1'',
       ''course/cheatsheet.md'' \<mapsto> ''Page 1\<newline>\<newline>v1\<newline>''])"
    by (simp add: load_cheatsheet_def Let_def ev_join_md ev_join_pdf ev_first_convert read_text_def)
  have md: "?fs1 (joinpath ''course'' ''cheatsheet.md'') = Some ''Page 1\<newline>\<newline>v1\<newline>''"
    by (simp add: ev_join_md)
  show "load_cheatsheet demo_env echo_ocr ?fs1 ''course'' False =
          (Inr ''Page 1\<newline>\<newline>v1\<newline>'', ?fs1)"
    by (rule load_cheatsheet_reads_md[where fs = ?fs1 and course_dir = "''course''", OF md])
  show "convert_to_markdown demo_env ?fs1 ''course/cheatsheet.pdf'' None None False =
          (Inr ''course/cheatsheet.md'', ?fs1)"
    by (rule convert_reuse[where content = "''v2''"])
       (simp_all add: ev_suffix_cheat ev_lower_pdf ev_sibling_cheat)
  show "convert_pdf_to_markdown_text demo_env ''v2'' ''course/cheatsheet.pdf'' =
          Inr ''Page 1\<newline>\<newline>v2\<newline>''"
    by (rule ev_extract_v2)
qed

end
